theory Spec2Isabelle
  imports Main "HOL-Library.Finite_Map" "HOL-Library.Word"
begin

unbundle bit_operations_syntax

section \<open>Go values shared by the client and the type package\<close>

text \<open>
  A run-time panic of the Go program is a value of its own, kept apart from the
  errors a function returns.
\<close>

datatype panic =
    AssignmentToNilMap
  | NilPointerDereference
  | InterfaceConversion
  | PanicMessage string

text \<open>
  A Go \<open>error\<close> value.  \<open>Errorf\<close> is an error built by \<open>fmt.Errorf\<close> with its
  message, \<open>Wrap\<close> is \<open>errors.Wrap(err, msg)\<close>, and \<open>Foreign\<close> is an error handed
  back by a collaborator (the HTTP transport, the JSON decoder, the block resolver),
  named by its message.
\<close>

datatype error =
    Errorf string
  | Wrap error string
  | Foreign string

text \<open>
  A Go map with string keys is a finite map, or \<open>nil\<close> (\<open>None\<close>).  Reading and
  ranging over a nil map behave as on an empty map; storing into one panics.
\<close>

type_synonym 'v gomap = "(string, 'v) fmap option"

definition entries :: "'v gomap \<Rightarrow> (string, 'v) fmap" where
  "entries m = (case m of None \<Rightarrow> fmempty | Some f \<Rightarrow> f)"

definition index_ok :: "'v gomap \<Rightarrow> string \<Rightarrow> 'v option" where
  \<comment> \<open>\<open>v, ok := m[k]\<close>: \<open>None\<close> is \<open>ok = false\<close>.\<close>
  "index_ok m k = fmlookup (entries m) k"

definition make_map :: "int \<Rightarrow> 'v gomap" where
  \<comment> \<open>\<open>make(map[string]T, hint)\<close>: a fresh, empty, non-nil map.  The hint only sizes
      the first allocation, and the runtime reads a hint it cannot honour, a negative
      one included, as 0.\<close>
  "make_map hint = Some fmempty"

definition range_store :: "'v gomap \<Rightarrow> 'v gomap \<Rightarrow> panic + 'v gomap" where
  \<comment> \<open>\<open>for k, v := range src { dst[k] = v }\<close>.  The keys of \<open>src\<close> are unique, so the
      order in which the runtime visits them does not show in the outcome.\<close>
  "range_store dst src =
     (if entries src = fmempty then Inr dst
      else (case dst of
              None \<Rightarrow> Inl AssignmentToNilMap
            | Some g \<Rightarrow> Inr (Some (fmadd g (entries src)))))"

section \<open>Record maps and their merger\<close>

text \<open>
  \<open>notiontypes.RecordMap\<close>: one map per record category, with the fields
  \<open>mergeRecordMaps\<close> names.  The element types are pointers to structs the merger
  never looks into, so they stay type variables.
\<close>

record ('b, 's, 'u, 'c, 'v) RecordMap =
  Blocks :: "'b gomap"
  Space :: "'s gomap"
  Users :: "'u gomap"
  Collections :: "'c gomap"
  CollectionViews :: "'v gomap"

definition merge_body ::
  "('b, 's, 'u, 'c, 'v) RecordMap \<Rightarrow> ('b, 's, 'u, 'c, 'v) RecordMap
     \<Rightarrow> panic + ('b, 's, 'u, 'c, 'v) RecordMap" where
  \<comment> \<open>The body of \<open>for _, rm := range rms\<close>: five copy loops in a row.\<close>
  "merge_body result rm =
     (case range_store (Blocks result) (Blocks rm) of Inl p \<Rightarrow> Inl p | Inr bs \<Rightarrow>
      case range_store (Space result) (Space rm) of Inl p \<Rightarrow> Inl p | Inr sp \<Rightarrow>
      case range_store (Users result) (Users rm) of Inl p \<Rightarrow> Inl p | Inr us \<Rightarrow>
      case range_store (Collections result) (Collections rm) of Inl p \<Rightarrow> Inl p | Inr cs \<Rightarrow>
      case range_store (CollectionViews result) (CollectionViews rm) of Inl p \<Rightarrow> Inl p | Inr vs \<Rightarrow>
        Inr \<lparr>Blocks = bs, Space = sp, Users = us, Collections = cs, CollectionViews = vs\<rparr>)"

fun merge_loop ::
  "('b, 's, 'u, 'c, 'v) RecordMap \<Rightarrow> ('b, 's, 'u, 'c, 'v) RecordMap list
     \<Rightarrow> panic + ('b, 's, 'u, 'c, 'v) RecordMap" where
  "merge_loop result [] = Inr result"
| "merge_loop result (rm # rms) =
     (case merge_body result rm of
        Inl p \<Rightarrow> Inl p
      | Inr result' \<Rightarrow> merge_loop result' rms)"

definition mergeRecordMaps ::
  "('b, 's, 'u, 'c, 'v) RecordMap list
     \<Rightarrow> panic + (('b, 's, 'u, 'c, 'v) RecordMap \<times> error option)" where
  \<comment> \<open>Returns \<open>(result, nil)\<close>: the second component is the Go \<open>error\<close>.\<close>
  "mergeRecordMaps rms =
     (case merge_loop
             \<lparr>Blocks = make_map (50 * int (length rms) - 1),
              Space = make_map 0,
              Users = make_map 0,
              Collections = make_map 0,
              CollectionViews = make_map 0\<rparr> rms of
        Inl p \<Rightarrow> Inl p
      | Inr result \<Rightarrow> Inr (result, None))"

section \<open>Inline rich text (package \<open>notiontypes\<close>)\<close>

text \<open>
  The parser works on what \<open>encoding/json\<close> decodes into an \<open>interface{}\<close>: \<open>nil\<close>,
  \<open>bool\<close>, \<open>float64\<close>, \<open>string\<close>, \<open>[]interface{}\<close> and \<open>map[string]interface{}\<close>.
  The parser only ever asks for the dynamic type of a number, so \<open>float64\<close> stays
  an abstract type.
\<close>

typedecl float64

datatype json =
    JNull
  | JBool bool
  | JNumber float64
  | JString string
  | JArray "json list"
  | JObject "(string \<times> json) list"

text \<open>
  One constructor per \<open>fmt.Errorf\<close> call of the parser, with the arguments the call
  formats into its message.
\<close>

datatype decode_error =
    AttributeArrayEmpty
      \<comment> \<open>\<open>"attribute array is empty"\<close>\<close>
  | AttributeNotString json "json list"
      \<comment> \<open>\<open>"a[0] is not string. a[0] is of type %T and value %#v", a[0], a\<close>\<close>
  | UnexpectedAttribute string
      \<comment> \<open>\<open>"unexpected attribute '%s'", s\<close>\<close>
  | AttributeLenNot2 nat
      \<comment> \<open>\<open>"len(a) is %d and should be 2", len(a)\<close>\<close>
  | AttributeValueNotString string
      \<comment> \<open>\<open>"value for 'a' attribute is not string. Type: %T, value: %#v", v, v\<close>\<close>
  | RawAttrNotArray json
      \<comment> \<open>\<open>"rawAttr is not []interface{} but %T of value %#v", rawAttr, rawAttr\<close>\<close>
  | BlockEmpty
      \<comment> \<open>\<open>"a is empty"\<close>\<close>
  | BlockSingleNotString json
      \<comment> \<open>\<open>"a is of length 1 but not string. a[0] el type: %T, el value: '%#v'", a[0], a[0]\<close>\<close>
  | BlockLenNot2 "json list"
      \<comment> \<open>\<open>"a is of length != 2. a value: '%#v'", a\<close>\<close>
  | BlockTextNotString json
      \<comment> \<open>\<open>"a[0] is not string. a[0] type: %T, value: '%#v'", a[0], a[0]\<close>\<close>
  | BlockAttrsNotArray json
      \<comment> \<open>\<open>"a[1] is not []interface{}. a[1] type: %T, value: '%#v'", a[1], a[1]\<close>\<close>
  | RawNotArray json
      \<comment> \<open>\<open>"raw is not of []interface{}. raw type: %T, value: '%#v'", raw, raw\<close>\<close>
  | RawEmpty
      \<comment> \<open>\<open>"raw is empty"\<close>\<close>
  | EntryNotArray json
      \<comment> \<open>\<open>"v is not []interface{}. v type: %T, value: '%#v'", v, v\<close>\<close>

text \<open>How a call of the parser can fail: it returns an error, or it panics.\<close>

datatype fault = Returned decode_error | Panicked panic

text \<open>\<open>AttrFlag\<close> is a Go \<open>int\<close> (64 bits on the usual targets), used as a set of bits; the
  constants are \<open>1 << iota\<close>.\<close>

type_synonym AttrFlag = "64 word"

definition AttrBold :: AttrFlag where
  "AttrBold = push_bit 0 1"

definition AttrCode :: AttrFlag where
  "AttrCode = push_bit 1 1"

definition AttrItalic :: AttrFlag where
  "AttrItalic = push_bit 2 1"

definition AttrStrikeThrought :: AttrFlag where
  "AttrStrikeThrought = push_bit 3 1"

text \<open>
  \<open>InlineBlock\<close>.  The struct \<open>Date\<close> is declared outside the files at hand, so it is
  a type variable; a nil \<open>*Date\<close> is \<open>None\<close>.
\<close>

record 'd InlineBlock =
  Text :: string
  AttrFlags :: AttrFlag
  Link :: string
  UserID :: string
  Date :: "'d option"

definition IsPlain :: "'d InlineBlock \<Rightarrow> bool" where
  "IsPlain b = (AttrFlags b = 0 \<and> Link b = [] \<and> UserID b = [] \<and> Date b = None)"

text \<open>
  \<open>parseAttribute\<close> writes through the pointer \<open>b\<close>; here it returns the block as it
  stands after the call.  The parameter \<open>decodeDate\<close> stands for the pair
  \<open>json.MarshalIndent\<close> / \<open>json.Unmarshal\<close> into a \<open>Date\<close>: \<open>Inl msg\<close> when either
  reports an error, which the code turns into \<open>panic(err.Error())\<close>.
\<close>

definition parseAttribute ::
  "((string \<times> json) list \<Rightarrow> string + 'd) \<Rightarrow> 'd InlineBlock \<Rightarrow> json list
     \<Rightarrow> fault + 'd InlineBlock" where
  "parseAttribute decodeDate b a =
     (if length a = 0 then Inl (Returned AttributeArrayEmpty)
      else (case a ! 0 of
              JString s \<Rightarrow>
                if length a = 1 then
                  (if s = ''b'' then Inr (b\<lparr>AttrFlags := AttrFlags b OR AttrBold\<rparr>)
                   else if s = ''i'' then Inr (b\<lparr>AttrFlags := AttrFlags b OR AttrItalic\<rparr>)
                   else if s = ''s'' then Inr (b\<lparr>AttrFlags := AttrFlags b OR AttrStrikeThrought\<rparr>)
                   else if s = ''c'' then Inr (b\<lparr>AttrFlags := AttrFlags b OR AttrCode\<rparr>)
                   else Inl (Returned (UnexpectedAttribute s)))
                else if length a \<noteq> 2 then Inl (Returned (AttributeLenNot2 (length a)))
                else if s = ''a'' \<or> s = ''u'' then
                  (case a ! 1 of
                     JString v \<Rightarrow>
                       if s = ''a'' then Inr (b\<lparr>Link := v\<rparr>)
                       else if s = ''u'' then Inr (b\<lparr>UserID := v\<rparr>)
                       else Inr b
                   | _ \<Rightarrow> Inl (Returned (AttributeValueNotString [])))
                else if s = ''d'' then
                  (case a ! 1 of
                     JObject v \<Rightarrow>
                       (case decodeDate v of
                          Inl msg \<Rightarrow> Inl (Panicked (PanicMessage msg))
                        | Inr d \<Rightarrow> Inr (b\<lparr>Date := Some d\<rparr>))
                   | _ \<Rightarrow> Inl (Panicked InterfaceConversion))
                else Inl (Returned (UnexpectedAttribute s))
            | _ \<Rightarrow> Inl (Returned (AttributeNotString (a ! 0) a))))"

fun parseAttributes ::
  "((string \<times> json) list \<Rightarrow> string + 'd) \<Rightarrow> 'd InlineBlock \<Rightarrow> json list
     \<Rightarrow> fault + 'd InlineBlock" where
  "parseAttributes decodeDate b [] = Inr b"
| "parseAttributes decodeDate b (rawAttr # rest) =
     (case rawAttr of
        JArray attrList \<Rightarrow>
          (case parseAttribute decodeDate b attrList of
             Inl err \<Rightarrow> Inl err
           | Inr b' \<Rightarrow> parseAttributes decodeDate b' rest)
      | _ \<Rightarrow> Inl (Returned (RawAttrNotArray rawAttr)))"

definition parseInlineBlock ::
  "((string \<times> json) list \<Rightarrow> string + 'd) \<Rightarrow> json list \<Rightarrow> fault + 'd InlineBlock" where
  "parseInlineBlock decodeDate a =
     (if length a = 0 then Inl (Returned BlockEmpty)
      else if length a = 1 then
        (case a ! 0 of
           JString s \<Rightarrow>
             Inr \<lparr>Text = s, AttrFlags = 0, Link = [], UserID = [], Date = None\<rparr>
         | _ \<Rightarrow> Inl (Returned (BlockSingleNotString (a ! 0))))
      else if length a \<noteq> 2 then Inl (Returned (BlockLenNot2 a))
      else (case a ! 0 of
              JString s \<Rightarrow>
                (case a ! 1 of
                   JArray attrs \<Rightarrow>
                     parseAttributes decodeDate
                       \<lparr>Text = s, AttrFlags = 0, Link = [], UserID = [], Date = None\<rparr> attrs
                 | _ \<Rightarrow> Inl (Returned (BlockAttrsNotArray (a ! 1))))
            | _ \<Rightarrow> Inl (Returned (BlockTextNotString (a ! 0)))))"

fun parseInlineBlocks_loop ::
  "((string \<times> json) list \<Rightarrow> string + 'd) \<Rightarrow> 'd InlineBlock list \<Rightarrow> json list
     \<Rightarrow> fault + 'd InlineBlock list" where
  "parseInlineBlocks_loop decodeDate res [] = Inr res"
| "parseInlineBlocks_loop decodeDate res (v # vs) =
     (case v of
        JArray a2 \<Rightarrow>
          (case parseInlineBlock decodeDate a2 of
             Inl err \<Rightarrow> Inl err
           | Inr block \<Rightarrow> parseInlineBlocks_loop decodeDate (res @ [block]) vs)
      | _ \<Rightarrow> Inl (Returned (EntryNotArray v)))"

definition parseInlineBlocks ::
  "((string \<times> json) list \<Rightarrow> string + 'd) \<Rightarrow> json \<Rightarrow> fault + 'd InlineBlock list" where
  "parseInlineBlocks decodeDate raw =
     (case raw of
        JArray a \<Rightarrow>
          if length a = 0 then Inl (Returned RawEmpty)
          else parseInlineBlocks_loop decodeDate [] a
      | _ \<Rightarrow> Inl (Returned (RawNotArray raw)))"

text \<open>
  The comment on \<open>InlineBlock\<close>: "only one of those is set on a given InlineBlock",
  said of \<open>Link\<close>, \<open>UserID\<close> and \<open>Date\<close>.
\<close>

definition exclusive_slot :: "'d InlineBlock \<Rightarrow> bool" where
  "exclusive_slot b =
     ((if Link b = [] then 0 else 1) + (if UserID b = [] then 0 else 1)
        + (if Date b = None then 0 else (1::nat)) \<le> 1)"

section \<open>The client (package \<open>notion\<close>)\<close>

subsection \<open>Wire types\<close>

text \<open>
  \<open>Cursor\<close> and \<open>StackPosition\<close> are declared outside the files at hand; the client
  only reads \<open>len(Cursor.Stack)\<close>, so a position is a type variable.
\<close>

record 'p Cursor =
  Stack :: "'p list list"

record ('p, 'm) loadPageChunkResponse =
  RecordMap :: 'm
  Cursor :: "'p Cursor"

record 'p loadPageChunkRequest =
  PageID :: string
  Limit :: "64 word"
  Cursor :: "'p Cursor"
  VerticalColumns :: bool

record operation =
  ID :: string
  Table :: string
  Path :: "string list"
  Command :: string
  Args :: "string list list"

record submitTransactionRequest =
  Operations :: "operation list"

text \<open>
  \<open>notiontypes.BlockWithRole\<close>; a nil \<open>*Block\<close> is \<open>None\<close>.  The client looks into a
  \<open>Block\<close> nowhere, so the struct is a type variable.  \<open>Page\<close> is declared outside the
  files at hand; \<open>GetPage\<close> sets its field \<open>Block\<close> and no other.
\<close>

record 'blk BlockWithRole =
  Role :: string
  Value :: "'blk option"

record 'blk Page =
  Block :: "'blk option"

subsection \<open>The transport\<close>

text \<open>
  \<open>c.post(payload, pattern)\<close> encodes the payload, performs the HTTP round trip and
  returns the body with an error.  It is a collaborator of the client: a parameter
  \<open>post\<close> that takes the payload, the path and the state of the world and returns
  \<open>([]byte, error)\<close> with the new state.  The calls of the logger are left out: they
  return nothing the client reads.
\<close>

datatype 'p payload =
    LoadPageChunk "'p loadPageChunkRequest"
  | SubmitTransaction submitTransactionRequest

type_synonym ('p, 'w) transport =
  "'p payload \<Rightarrow> string \<Rightarrow> 'w \<Rightarrow> (string \<times> error option) \<times> 'w"

type_synonym 'p exchange = "'p payload \<times> string \<times> (string \<times> error option)"

definition logged :: "('p, 'w) transport \<Rightarrow> ('p, 'w \<times> 'p exchange list) transport" where
  \<comment> \<open>The same transport, keeping a journal of the requests it was given and of what
      it answered.\<close>
  "logged post payload pattern =
     (\<lambda>(w, journal).
        case post payload pattern w of
          (answer, w') \<Rightarrow> (answer, (w', journal @ [(payload, pattern, answer)])))"

subsection \<open>Fetching a block\<close>

text \<open>
  The loop of \<open>GetBlock\<close>.  It runs for as long as the server keeps returning a cursor
  with a non-empty stack, so it is a partial function: \<open>None\<close> is a run that never
  returns.  \<open>unmarshal\<close> stands for \<open>json.Unmarshal\<close> into a fresh
  \<open>loadPageChunkResponse\<close>.
\<close>

partial_function (option) GetBlock_loop ::
  "('p, 'w) transport \<Rightarrow> (string \<Rightarrow> error + ('p, 'm) loadPageChunkResponse)
     \<Rightarrow> 'p loadPageChunkRequest \<Rightarrow> 'm list \<Rightarrow> 'w \<Rightarrow> ((error + 'm list) \<times> 'w) option" where
  "GetBlock_loop post unmarshal lp results w =
     (case post (LoadPageChunk lp) ''loadPageChunk'' w of
        ((b, Some err), w') \<Rightarrow> Some (Inl err, w')
      | ((b, None), w') \<Rightarrow>
          (case unmarshal b of
             Inl err \<Rightarrow> Some (Inl (Wrap err ''unmarshaling loadPageChunkResponse''), w')
           | Inr r \<Rightarrow>
               if length (Stack (loadPageChunkResponse.Cursor r)) = 0
               then Some (Inr (results @ [RecordMap r]), w')
               else GetBlock_loop post unmarshal
                      (lp\<lparr>Cursor := loadPageChunkResponse.Cursor r\<rparr>)
                      (results @ [RecordMap r]) w'))"

text \<open>
  \<open>notiontypes.ResolveBlock(block, blocks)\<close> is not among the files at hand.  It is a
  parameter \<open>resolve\<close>: it links the block behind the pointer in place and returns an
  error, so here it returns the block as it stands after the call together with the
  error; it may also panic, or not return (\<open>None\<close>).
\<close>

type_synonym 'blk resolver =
  "'blk option \<Rightarrow> 'blk option gomap \<Rightarrow> (panic + ('blk option \<times> error option)) option"

definition collect_values ::
  "'blk BlockWithRole option gomap \<Rightarrow> panic + 'blk option gomap" where
  \<comment> \<open>\<open>blocks := make(map[string]*Block, len(m)); for k, v := range m { blocks[k] = v.Value }\<close>:
      \<open>v.Value\<close> panics on a nil \<open>v\<close>.\<close>
  "collect_values m =
     (if None |\<in>| fmran (entries m) then Inl NilPointerDereference
      else Inr (Some (fmmap (\<lambda>v. case v of None \<Rightarrow> None | Some bwr \<Rightarrow> Value bwr) (entries m))))"

definition parseBlockFromRecordMaps ::
  "'blk resolver \<Rightarrow> string \<Rightarrow> ('blk BlockWithRole option, 's, 'u, 'c, 'v) RecordMap list
     \<Rightarrow> (panic + ('blk option \<times> error option)) option" where
  "parseBlockFromRecordMaps resolve blockID responses =
     (case mergeRecordMaps responses of
        Inl p \<Rightarrow> Some (Inl p)
      | Inr (rm, Some err) \<Rightarrow> Some (Inr (None, Some err))
      | Inr (rm, None) \<Rightarrow>
          (case index_ok (Blocks rm) blockID of
             None \<Rightarrow> Some (Inr (None, Some (Errorf ''notion: missing block id in block list'')))
           | Some None \<Rightarrow> Some (Inl NilPointerDereference)
           | Some (Some blockBlock) \<Rightarrow>
               (case collect_values (Blocks rm) of
                  Inl p \<Rightarrow> Some (Inl p)
                | Inr blocks \<Rightarrow>
                    (case resolve (Value blockBlock) blocks of
                       None \<Rightarrow> None
                     | Some (Inl p) \<Rightarrow> Some (Inl p)
                     | Some (Inr (block, Some err)) \<Rightarrow>
                         Some (Inr (None, Some (Wrap err ''resolveBlock failed'')))
                     | Some (Inr (block, None)) \<Rightarrow> Some (Inr (block, None))))))"

definition first_request :: "string \<Rightarrow> 'p loadPageChunkRequest" where
  \<comment> \<open>The request \<open>GetBlock\<close> starts from.\<close>
  "first_request blockID =
     \<lparr>PageID = blockID, Limit = 50, Cursor = \<lparr>Stack = []\<rparr>, VerticalColumns = False\<rparr>"

definition GetBlock ::
  "('p, 'w) transport
     \<Rightarrow> (string \<Rightarrow> error + ('p, ('blk BlockWithRole option, 's, 'u, 'c, 'v) RecordMap) loadPageChunkResponse)
     \<Rightarrow> 'blk resolver \<Rightarrow> string \<Rightarrow> 'w
     \<Rightarrow> ((panic + ('blk option \<times> error option)) \<times> 'w) option" where
  "GetBlock post unmarshal resolve blockID w =
     (case GetBlock_loop post unmarshal (first_request blockID) [] w of
        None \<Rightarrow> None
      | Some (Inl err, w') \<Rightarrow> Some (Inr (None, Some err), w')
      | Some (Inr results, w') \<Rightarrow>
          (case parseBlockFromRecordMaps resolve blockID results of
             None \<Rightarrow> None
           | Some out \<Rightarrow> Some (out, w')))"

definition GetPage ::
  "('p, 'w) transport
     \<Rightarrow> (string \<Rightarrow> error + ('p, ('blk BlockWithRole option, 's, 'u, 'c, 'v) RecordMap) loadPageChunkResponse)
     \<Rightarrow> 'blk resolver \<Rightarrow> string \<Rightarrow> 'w
     \<Rightarrow> ((panic + ('blk Page option \<times> error option)) \<times> 'w) option" where
  \<comment> \<open>\<open>b, err := c.GetBlock(pageId); return &Page{Block: b}, err\<close>\<close>
  "GetPage post unmarshal resolve pageId w =
     (case GetBlock post unmarshal resolve pageId w of
        None \<Rightarrow> None
      | Some (Inl p, w') \<Rightarrow> Some (Inl p, w')
      | Some (Inr (b, err), w') \<Rightarrow> Some (Inr (Some \<lparr>Block = b\<rparr>, err), w'))"

subsection \<open>Setting a property\<close>

text \<open>
  \<open>strings.Split(s, sep)\<close> for a separator of one byte: the substrings of \<open>s\<close> between
  the separators, one more than there are separators.
\<close>

fun strings_Split :: "string \<Rightarrow> char \<Rightarrow> string list" where
  "strings_Split [] sep = [[]]"
| "strings_Split (c # s) sep =
     (if c = sep then [] # strings_Split s sep
      else (case strings_Split s sep of
              [] \<Rightarrow> [[c]] \<comment> \<open>not reached: the result is never empty\<close>
            | x # xs \<Rightarrow> (c # x) # xs))"

definition UpdateBlock ::
  "('p, 'w) transport \<Rightarrow> string \<Rightarrow> string \<Rightarrow> string \<Rightarrow> 'w \<Rightarrow> error option \<times> 'w" where
  "UpdateBlock post blockID path value w =
     (let lp = \<lparr>Operations =
                 [\<lparr>ID = blockID, Table = ''block'', Path = strings_Split path CHR ''.'',
                   Command = ''set'', Args = [[value]]\<rparr>]\<rparr>
      in case post (SubmitTransaction lp) ''submitTransaction'' w of
           ((b, Some err), w') \<Rightarrow> (Some err, w')
         | ((b, None), w') \<Rightarrow> (None, w'))"

section \<open>What the merger is specified to do\<close>

text \<open>
  The definitions of this section and of the next two are not translations of the
  code: they are the vocabulary of the properties proved of it.  \<open>overlay\<close> lays the
  maps of one category over one another, later inputs on top, and \<open>allocated\<close> says
  that all five categories of a record map are non-nil.
\<close>

fun overlay :: "(string, 'v) fmap \<Rightarrow> 'v gomap list \<Rightarrow> (string, 'v) fmap" where
  "overlay acc [] = acc"
| "overlay acc (m # ms) = overlay (fmadd acc (entries m)) ms"

definition allocated :: "('b, 's, 'u, 'c, 'v) RecordMap \<Rightarrow> bool" where
  "allocated r =
     (Blocks r \<noteq> None \<and> Space r \<noteq> None \<and> Users r \<noteq> None
      \<and> Collections r \<noteq> None \<and> CollectionViews r \<noteq> None)"

definition keys :: "'v gomap \<Rightarrow> string set" where
  "keys m = fmdom' (entries m)"

text \<open>
  Key-wise last-write-wins for one category: the result is allocated, its keys are
  the keys of the inputs, and a key holds the value of the last input, in sequence
  order, that contains it.
\<close>

definition last_write_wins :: "'v gomap list \<Rightarrow> 'v gomap \<Rightarrow> bool" where
  "last_write_wins ms r =
     (r \<noteq> None
      \<and> keys r = (\<Union>m \<in> set ms. keys m)
      \<and> (\<forall>i k. i < length ms \<and> k \<in> keys (ms ! i)
                 \<and> (\<forall>j. i < j \<and> j < length ms \<longrightarrow> k \<notin> keys (ms ! j))
             \<longrightarrow> index_ok r k = index_ok (ms ! i) k))"

text \<open>Two record maps share no key in any category.\<close>

definition disjoint_keys ::
  "('b, 's, 'u, 'c, 'v) RecordMap \<Rightarrow> ('b, 's, 'u, 'c, 'v) RecordMap \<Rightarrow> bool" where
  "disjoint_keys a b =
     (keys (Blocks a) \<inter> keys (Blocks b) = {}
      \<and> keys (Space a) \<inter> keys (Space b) = {}
      \<and> keys (Users a) \<inter> keys (Users b) = {}
      \<and> keys (Collections a) \<inter> keys (Collections b) = {}
      \<and> keys (CollectionViews a) \<inter> keys (CollectionViews b) = {})"

text \<open>A partial record map for the examples: some blocks, two categories left nil.\<close>

definition page_of :: "(string \<times> nat) list \<Rightarrow> (nat, unit, unit, unit, unit) RecordMap" where
  "page_of kvs =
     \<lparr>Blocks = Some (fmap_of_list kvs), Space = None, Users = Some fmempty,
      Collections = None, CollectionViews = None\<rparr>"

section \<open>What the client is specified to do\<close>



text \<open>\<open>strings.Join\<close>, to say what splitting a path at its dots means.\<close>

fun strings_Join :: "string list \<Rightarrow> string \<Rightarrow> string" where
  "strings_Join [] sep = []"
| "strings_Join [x] sep = x"
| "strings_Join (x # y # ys) sep = x @ sep @ strings_Join (y # ys) sep"

text \<open>
  A stub server for the examples.  Its state is the list of bodies it will still
  answer with: the bodies "1" and "2" decode to a page with a non-empty cursor stack,
  "3" to a page with the empty one, and with no body left the round trip fails.
\<close>

definition stub_page :: "string \<Rightarrow> (unit BlockWithRole option, unit, unit, unit, unit) RecordMap" where
  "stub_page k =
     \<lparr>Blocks = Some (fmupd k (Some \<lparr>Role = ''reader'', Value = Some ()\<rparr>) fmempty),
      Space = None, Users = None, Collections = None, CollectionViews = None\<rparr>"

definition stub_post :: "(nat, string list) transport" where
  "stub_post payload pattern bodies =
     (case bodies of
        [] \<Rightarrow> (([], Some (Foreign ''connection refused'')), [])
      | b # bs \<Rightarrow> ((b, None), bs))"

definition stub_unmarshal ::
  "string \<Rightarrow> error + (nat, (unit BlockWithRole option, unit, unit, unit, unit) RecordMap)
                        loadPageChunkResponse" where
  "stub_unmarshal b =
     (if b = ''1'' then Inr \<lparr>RecordMap = stub_page ''a'', Cursor = \<lparr>Stack = [[1]]\<rparr>\<rparr>
      else if b = ''2'' then Inr \<lparr>RecordMap = stub_page ''b'', Cursor = \<lparr>Stack = [[2]]\<rparr>\<rparr>
      else if b = ''3'' then Inr \<lparr>RecordMap = stub_page ''c'', Cursor = \<lparr>Stack = []\<rparr>\<rparr>
      else Inl (Foreign ''unexpected end of JSON input''))"

definition stub_resolve :: "unit resolver" where
  "stub_resolve block blocks = Some (Inr (block, None))"

section \<open>Where the inline parser can panic\<close>

text \<open>
  An attribute entry of the shape \<open>["d", value]\<close>, and a rich-text value one of whose
  spans has such an entry among its attributes.
\<close>

definition is_date_attribute :: "json \<Rightarrow> bool" where
  "is_date_attribute rawAttr =
     (case rawAttr of
        JArray [JString s, v] \<Rightarrow> s = ''d''
      | _ \<Rightarrow> False)"

definition carries_date :: "json \<Rightarrow> bool" where
  "carries_date raw =
     (case raw of
        JArray a \<Rightarrow>
          list_ex (\<lambda>entry. case entry of
                             JArray [t, JArray attrs] \<Rightarrow> list_ex is_date_attribute attrs
                           | _ \<Rightarrow> False) a
      | _ \<Rightarrow> False)"

section \<open>Properties of the merger\<close>

lemma range_store_allocated:
  "range_store (Some g) src = Inr (Some (fmadd g (entries src)))"
  by (simp add: range_store_def)

lemma merge_body_allocated:
  assumes "allocated result"
  shows "merge_body result rm =
           Inr \<lparr>Blocks = Some (fmadd (entries (Blocks result)) (entries (Blocks rm))),
                Space = Some (fmadd (entries (Space result)) (entries (Space rm))),
                Users = Some (fmadd (entries (Users result)) (entries (Users rm))),
                Collections =
                  Some (fmadd (entries (Collections result)) (entries (Collections rm))),
                CollectionViews =
                  Some (fmadd (entries (CollectionViews result)) (entries (CollectionViews rm)))\<rparr>"
proof -
  from assms obtain b s u c v where
    "Blocks result = Some b" "Space result = Some s" "Users result = Some u"
    "Collections result = Some c" "CollectionViews result = Some v"
    by (auto simp: allocated_def)
  then show ?thesis
    by (simp add: merge_body_def range_store_allocated entries_def)
qed

lemma merge_loop_allocated:
  "allocated result \<Longrightarrow>
   merge_loop result rms =
     Inr \<lparr>Blocks = Some (overlay (entries (Blocks result)) (map Blocks rms)),
          Space = Some (overlay (entries (Space result)) (map Space rms)),
          Users = Some (overlay (entries (Users result)) (map Users rms)),
          Collections = Some (overlay (entries (Collections result)) (map Collections rms)),
          CollectionViews =
            Some (overlay (entries (CollectionViews result)) (map CollectionViews rms))\<rparr>"
proof (induction rms arbitrary: result)
  case Nil
  then show ?case
    by (cases result) (auto simp: allocated_def entries_def)
next
  case (Cons rm rms)
  let ?next = "\<lparr>Blocks = Some (fmadd (entries (Blocks result)) (entries (Blocks rm))),
                Space = Some (fmadd (entries (Space result)) (entries (Space rm))),
                Users = Some (fmadd (entries (Users result)) (entries (Users rm))),
                Collections =
                  Some (fmadd (entries (Collections result)) (entries (Collections rm))),
                CollectionViews =
                  Some (fmadd (entries (CollectionViews result)) (entries (CollectionViews rm)))\<rparr>"
  have step: "merge_body result rm = Inr ?next"
    using Cons.prems by (rule merge_body_allocated)
  have "allocated ?next"
    by (simp add: allocated_def)
  from Cons.IH [OF this] step show ?case
    by (simp add: entries_def)
qed

lemma mergeRecordMaps_overlay:
  "mergeRecordMaps rms =
     Inr (\<lparr>Blocks = Some (overlay fmempty (map Blocks rms)),
           Space = Some (overlay fmempty (map Space rms)),
           Users = Some (overlay fmempty (map Users rms)),
           Collections = Some (overlay fmempty (map Collections rms)),
           CollectionViews = Some (overlay fmempty (map CollectionViews rms))\<rparr>, None)"
proof -
  let ?start = "\<lparr>Blocks = make_map (50 * int (length rms) - 1), Space = make_map 0,
                 Users = make_map 0, Collections = make_map 0,
                 CollectionViews = make_map 0\<rparr>
                  :: ('a, 'b, 'c, 'd, 'e) RecordMap"
  have "allocated ?start"
    by (simp add: allocated_def make_map_def)
  from merge_loop_allocated [OF this, of rms] show ?thesis
    by (simp add: mergeRecordMaps_def make_map_def entries_def)
qed

lemma overlay_append: "overlay acc (ms @ [m]) = fmadd (overlay acc ms) (entries m)"
  by (induction ms arbitrary: acc) simp_all

lemma keys_overlay: "fmdom' (overlay acc ms) = fmdom' acc \<union> (\<Union>m \<in> set ms. keys m)"
  by (induction ms arbitrary: acc) (auto simp: keys_def)


lemma overlay_last:
  assumes "i < length ms" and "k \<in> keys (ms ! i)"
    and "\<forall>j. i < j \<and> j < length ms \<longrightarrow> k \<notin> keys (ms ! j)"
  shows "fmlookup (overlay acc ms) k = fmlookup (entries (ms ! i)) k"
  using assms
proof (induction ms rule: rev_induct)
  case Nil
  then show ?case by simp
next
  case (snoc m ms)
  show ?case
  proof (cases "i = length ms")
    case True
    with snoc.prems(2) have "k |\<in>| fmdom (entries m)"
      by (simp add: keys_def fmdom'_alt_def)
    with True show ?thesis
      by (simp add: overlay_append)
  next
    case False
    with snoc.prems(1) have less: "i < length ms"
      by simp
    have "length ms < length (ms @ [m])"
      by simp
    with snoc.prems(3) less have "k \<notin> keys ((ms @ [m]) ! length ms)"
      by blast
    then have absent: "k |\<notin>| fmdom (entries m)"
      by (simp add: keys_def fmdom'_alt_def)
    have later: "\<forall>j. i < j \<and> j < length ms \<longrightarrow> k \<notin> keys (ms ! j)"
    proof (intro allI impI)
      fix j
      assume j: "i < j \<and> j < length ms"
      then have "i < j \<and> j < length (ms @ [m])"
        by simp
      with snoc.prems(3) have "k \<notin> keys ((ms @ [m]) ! j)"
        by blast
      with j show "k \<notin> keys (ms ! j)"
        by (simp add: nth_append)
    qed
    from snoc.prems(2) less have here: "k \<in> keys (ms ! i)"
      by (simp add: nth_append)
    from less here later have "fmlookup (overlay acc ms) k = fmlookup (entries (ms ! i)) k"
      by (rule snoc.IH)
    with absent less show ?thesis
      by (simp add: overlay_append nth_append)
  qed
qed

lemma overlay_last_write_wins: "last_write_wins ms (Some (overlay fmempty ms))"
  unfolding last_write_wins_def
proof (intro conjI allI impI)
  show "Some (overlay fmempty ms) \<noteq> None" by simp
  show "keys (Some (overlay fmempty ms)) = (\<Union>m \<in> set ms. keys m)"
    using keys_overlay [of fmempty ms] by (simp add: keys_def entries_def)
next
  fix i k
  assume "i < length ms \<and> k \<in> keys (ms ! i)
            \<and> (\<forall>j. i < j \<and> j < length ms \<longrightarrow> k \<notin> keys (ms ! j))"
  then have "i < length ms" and "k \<in> keys (ms ! i)"
    and "\<forall>j. i < j \<and> j < length ms \<longrightarrow> k \<notin> keys (ms ! j)"
    by blast+
  then have "fmlookup (overlay fmempty ms) k = fmlookup (entries (ms ! i)) k"
    by (rule overlay_last)
  then show "index_ok (Some (overlay fmempty ms)) k = index_ok (ms ! i) k"
    by (simp add: index_ok_def entries_def)
qed

text \<open>
  Claim C1.  For every sequence of partial record maps, \<open>mergeRecordMaps\<close> returns a
  record map that is, in each of the five categories, key-wise last-write-wins: the
  category is allocated, its keys are exactly the keys that occur in some input, and a
  key holds the value of the last input, in sequence order, that contains it.
\<close>

theorem mergeRecordMaps_last_write_wins:
  "\<exists>r. mergeRecordMaps rms = Inr (r, None)
       \<and> last_write_wins (map Blocks rms) (Blocks r)
       \<and> last_write_wins (map Space rms) (Space r)
       \<and> last_write_wins (map Users rms) (Users r)
       \<and> last_write_wins (map Collections rms) (Collections r)
       \<and> last_write_wins (map CollectionViews rms) (CollectionViews r)"
  by (simp add: mergeRecordMaps_overlay overlay_last_write_wins)

theorem mergeRecordMaps_last_write_wins_witness:
  "\<exists>r. mergeRecordMaps [page_of [(''a'', 1), (''b'', 1)], page_of [(''a'', 2)]] = Inr (r, None)
       \<and> index_ok (Blocks r) ''a'' = Some 2
       \<and> index_ok (Blocks r) ''b'' = Some 1
       \<and> keys (Blocks r) = {''a'', ''b''}"
proof -
  let ?rms = "[page_of [(''a'', 1), (''b'', 1)], page_of [(''a'', 2)]]"
  from mergeRecordMaps_last_write_wins [of ?rms] obtain r where
    r: "mergeRecordMaps ?rms = Inr (r, None)"
    and lww: "last_write_wins (map Blocks ?rms) (Blocks r)"
    by blast
  from lww have dom: "keys (Blocks r) = (\<Union>m \<in> set (map Blocks ?rms). keys m)"
    and last: "\<And>i k. i < length (map Blocks ?rms) \<Longrightarrow> k \<in> keys (map Blocks ?rms ! i)
                \<Longrightarrow> (\<forall>j. i < j \<and> j < length (map Blocks ?rms) \<longrightarrow> k \<notin> keys (map Blocks ?rms ! j))
                \<Longrightarrow> index_ok (Blocks r) k = index_ok (map Blocks ?rms ! i) k"
    unfolding last_write_wins_def by blast+
  have "index_ok (Blocks r) ''a'' = Some 2"
    using last [of 1 "''a''"]
    by (simp add: page_of_def keys_def entries_def index_ok_def)
  moreover have "index_ok (Blocks r) ''b'' = Some 1"
  proof -
    have "\<forall>j. 0 < j \<and> j < length (map Blocks ?rms) \<longrightarrow> ''b'' \<notin> keys (map Blocks ?rms ! j)"
    proof (intro allI impI)
      fix j
      assume "0 < j \<and> j < length (map Blocks ?rms)"
      then have "j = 1"
        by simp
      then show "''b'' \<notin> keys (map Blocks ?rms ! j)"
        by (simp add: page_of_def keys_def entries_def)
    qed
    with last [of 0 "''b''"] show ?thesis
      by (simp add: page_of_def keys_def entries_def index_ok_def)
  qed
  moreover have "keys (Blocks r) = {''a'', ''b''}"
    using dom by (auto simp: page_of_def keys_def entries_def)
  ultimately show ?thesis
    using r by blast
qed

text \<open>
  Claim C4.  \<open>mergeRecordMaps\<close> has no failure mode: on the empty sequence it returns
  the record map whose five categories are allocated and empty, with a nil error, and
  on every sequence it returns (it does not panic) a record map with all five
  categories allocated, again with a nil error.
\<close>

theorem mergeRecordMaps_total:
  "mergeRecordMaps [] =
     Inr (\<lparr>Blocks = Some fmempty, Space = Some fmempty, Users = Some fmempty,
           Collections = Some fmempty, CollectionViews = Some fmempty\<rparr>
            :: ('b, 's, 'u, 'c, 'v) RecordMap, None)
   \<and> (\<forall>rms :: ('b, 's, 'u, 'c, 'v) RecordMap list.
         \<exists>r. mergeRecordMaps rms = Inr (r, None) \<and> allocated r)"
  by (simp add: mergeRecordMaps_overlay allocated_def)

lemma fmadd_disjoint_commute:
  assumes "keys m \<inter> keys n = {}"
  shows "fmadd (entries m) (entries n) = fmadd (entries n) (entries m)"
proof (rule fmap_ext)
  fix k
  from assms have "\<not> (k |\<in>| fmdom (entries m) \<and> k |\<in>| fmdom (entries n))"
    by (auto simp: keys_def fmdom'_alt_def)
  then show "fmlookup (fmadd (entries m) (entries n)) k = fmlookup (fmadd (entries n) (entries m)) k"
    by (cases "fmlookup (entries m) k"; cases "fmlookup (entries n) k")
       (auto simp: fmlookup_dom_iff)
qed

lemma overlay_swap_last:
  assumes "keys m \<inter> keys n = {}"
  shows "fmadd (fmadd acc (entries m)) (entries n) = fmadd (fmadd acc (entries n)) (entries m)"
proof -
  have "fmadd (fmadd acc (entries m)) (entries n) = fmadd acc (fmadd (entries m) (entries n))"
    by simp
  also have "\<dots> = fmadd acc (fmadd (entries n) (entries m))"
    by (rule arg_cong [OF fmadd_disjoint_commute [OF assms]])
  also have "\<dots> = fmadd (fmadd acc (entries n)) (entries m)"
    by simp
  finally show ?thesis .
qed

lemma overlay_orders:
  assumes ab: "keys a \<inter> keys b = {}" and ac: "keys a \<inter> keys c = {}"
    and bc: "keys b \<inter> keys c = {}"
  shows "overlay fmempty [a, c, b] = overlay fmempty [a, b, c]"
    and "overlay fmempty [b, a, c] = overlay fmempty [a, b, c]"
    and "overlay fmempty [b, c, a] = overlay fmempty [a, b, c]"
    and "overlay fmempty [c, a, b] = overlay fmempty [a, b, c]"
    and "overlay fmempty [c, b, a] = overlay fmempty [a, b, c]"
proof -
  have ba: "keys b \<inter> keys a = {}" and ca: "keys c \<inter> keys a = {}"
    and cb: "keys c \<inter> keys b = {}"
    using ab ac bc by blast+
  show "overlay fmempty [a, c, b] = overlay fmempty [a, b, c]"
    using overlay_swap_last [OF cb, of "entries a"] by simp
  show bac: "overlay fmempty [b, a, c] = overlay fmempty [a, b, c]"
    using fmadd_disjoint_commute [OF ba] by simp
  have "overlay fmempty [b, c, a] = overlay fmempty [b, a, c]"
    using overlay_swap_last [OF ca, of "entries b"] by simp
  with bac show bca: "overlay fmempty [b, c, a] = overlay fmempty [a, b, c]"
    by simp
  have "overlay fmempty [c, b, a] = overlay fmempty [b, c, a]"
    using fmadd_disjoint_commute [OF cb] by simp
  with bca show cba: "overlay fmempty [c, b, a] = overlay fmempty [a, b, c]"
    by simp
  have "overlay fmempty [c, a, b] = overlay fmempty [c, b, a]"
    using overlay_swap_last [OF ab, of "entries c"] by simp
  with cba show "overlay fmempty [c, a, b] = overlay fmempty [a, b, c]"
    by simp
qed

text \<open>
  Claim C8.  For partial record maps \<open>A\<close>, \<open>B\<close>, \<open>C\<close> whose keys are pairwise disjoint
  in every category, merging is associative and commutative: merging \<open>[A, B]\<close> and then
  the result with \<open>C\<close>, merging \<open>[A, B, C]\<close> in one pass, and merging \<open>[A]\<close> and
  \<open>[B, C]\<close> and then the two results, all give the same record map, and so does every
  reordering of the inputs.
\<close>

theorem mergeRecordMaps_assoc_comm:
  assumes "disjoint_keys A B" and "disjoint_keys A C" and "disjoint_keys B C"
  shows "\<exists>a ab bc r.
           mergeRecordMaps [A] = Inr (a, None)
         \<and> mergeRecordMaps [A, B] = Inr (ab, None)
         \<and> mergeRecordMaps [B, C] = Inr (bc, None)
         \<and> mergeRecordMaps [A, B, C] = Inr (r, None)
         \<and> mergeRecordMaps [ab, C] = Inr (r, None)
         \<and> mergeRecordMaps [a, bc] = Inr (r, None)
         \<and> mergeRecordMaps [A, bc] = Inr (r, None)
         \<and> mergeRecordMaps [B, A] = Inr (ab, None)
         \<and> mergeRecordMaps [A, C, B] = Inr (r, None)
         \<and> mergeRecordMaps [B, A, C] = Inr (r, None)
         \<and> mergeRecordMaps [B, C, A] = Inr (r, None)
         \<and> mergeRecordMaps [C, A, B] = Inr (r, None)
         \<and> mergeRecordMaps [C, B, A] = Inr (r, None)"
proof -
  define a where "a = fst (projr (mergeRecordMaps [A]))"
  define ab where "ab = fst (projr (mergeRecordMaps [A, B]))"
  define bc where "bc = fst (projr (mergeRecordMaps [B, C]))"
  define r where "r = fst (projr (mergeRecordMaps [A, B, C]))"
  have a: "mergeRecordMaps [A] = Inr (a, None)"
    and ab: "mergeRecordMaps [A, B] = Inr (ab, None)"
    and bc: "mergeRecordMaps [B, C] = Inr (bc, None)"
    and r: "mergeRecordMaps [A, B, C] = Inr (r, None)"
    by (simp_all add: a_def ab_def bc_def r_def mergeRecordMaps_overlay)
  have fields:
    "Blocks a = Some (entries (Blocks A))" "Space a = Some (entries (Space A))"
    "Users a = Some (entries (Users A))" "Collections a = Some (entries (Collections A))"
    "CollectionViews a = Some (entries (CollectionViews A))"
    "Blocks ab = Some (overlay fmempty [Blocks A, Blocks B])"
    "Space ab = Some (overlay fmempty [Space A, Space B])"
    "Users ab = Some (overlay fmempty [Users A, Users B])"
    "Collections ab = Some (overlay fmempty [Collections A, Collections B])"
    "CollectionViews ab = Some (overlay fmempty [CollectionViews A, CollectionViews B])"
    "Blocks bc = Some (overlay fmempty [Blocks B, Blocks C])"
    "Space bc = Some (overlay fmempty [Space B, Space C])"
    "Users bc = Some (overlay fmempty [Users B, Users C])"
    "Collections bc = Some (overlay fmempty [Collections B, Collections C])"
    "CollectionViews bc = Some (overlay fmempty [CollectionViews B, CollectionViews C])"
    by (simp_all add: a_def ab_def bc_def mergeRecordMaps_overlay)
  have r_eq: "r = \<lparr>Blocks = Some (overlay fmempty [Blocks A, Blocks B, Blocks C]),
                    Space = Some (overlay fmempty [Space A, Space B, Space C]),
                    Users = Some (overlay fmempty [Users A, Users B, Users C]),
                    Collections = Some (overlay fmempty [Collections A, Collections B, Collections C]),
                    CollectionViews =
                      Some (overlay fmempty [CollectionViews A, CollectionViews B, CollectionViews C])\<rparr>"
    by (simp add: r_def mergeRecordMaps_overlay)
  have ab_eq: "ab = \<lparr>Blocks = Some (overlay fmempty [Blocks A, Blocks B]),
                    Space = Some (overlay fmempty [Space A, Space B]),
                    Users = Some (overlay fmempty [Users A, Users B]),
                    Collections = Some (overlay fmempty [Collections A, Collections B]),
                    CollectionViews =
                      Some (overlay fmempty [CollectionViews A, CollectionViews B])\<rparr>"
    by (simp add: ab_def mergeRecordMaps_overlay)
  have nested: "mergeRecordMaps [ab, C] = Inr (r, None)"
    "mergeRecordMaps [a, bc] = Inr (r, None)" "mergeRecordMaps [A, bc] = Inr (r, None)"
    by (simp_all add: mergeRecordMaps_overlay fields r_eq entries_def)
  have swap: "mergeRecordMaps [B, A] = Inr (ab, None)"
    using assms(1) fmadd_disjoint_commute [of "Blocks B" "Blocks A"]
      fmadd_disjoint_commute [of "Space B" "Space A"]
      fmadd_disjoint_commute [of "Users B" "Users A"]
      fmadd_disjoint_commute [of "Collections B" "Collections A"]
      fmadd_disjoint_commute [of "CollectionViews B" "CollectionViews A"]
    by (simp add: mergeRecordMaps_overlay ab_eq disjoint_keys_def Int_commute)
  have orders: "mergeRecordMaps [A, C, B] = Inr (r, None)"
    "mergeRecordMaps [B, A, C] = Inr (r, None)" "mergeRecordMaps [B, C, A] = Inr (r, None)"
    "mergeRecordMaps [C, A, B] = Inr (r, None)" "mergeRecordMaps [C, B, A] = Inr (r, None)"
    using assms
    by (simp_all add: mergeRecordMaps_overlay r_eq disjoint_keys_def overlay_orders
        del: overlay.simps)
  from a ab bc r nested swap orders show ?thesis
    by blast
qed

theorem mergeRecordMaps_assoc_comm_witness:
  "\<exists>a ab bc r.
     mergeRecordMaps [page_of [(''a'', 1)]] = Inr (a, None)
   \<and> mergeRecordMaps [page_of [(''a'', 1)], page_of [(''b'', 2)]] = Inr (ab, None)
   \<and> mergeRecordMaps [page_of [(''b'', 2)], page_of [(''c'', 3)]] = Inr (bc, None)
   \<and> mergeRecordMaps [page_of [(''a'', 1)], page_of [(''b'', 2)], page_of [(''c'', 3)]] = Inr (r, None)
   \<and> mergeRecordMaps [ab, page_of [(''c'', 3)]] = Inr (r, None)
   \<and> mergeRecordMaps [a, bc] = Inr (r, None)
   \<and> mergeRecordMaps [page_of [(''c'', 3)], page_of [(''b'', 2)], page_of [(''a'', 1)]] = Inr (r, None)"
proof -
  have "disjoint_keys (page_of [(''a'', 1)]) (page_of [(''b'', 2)])"
    and "disjoint_keys (page_of [(''a'', 1)]) (page_of [(''c'', 3)])"
    and "disjoint_keys (page_of [(''b'', 2)]) (page_of [(''c'', 3)])"
    by (simp_all add: disjoint_keys_def page_of_def keys_def entries_def)
  from mergeRecordMaps_assoc_comm [OF this] show ?thesis
    by blast
qed

section \<open>Properties of the inline parser\<close>

lemma parseInlineBlocks_loop_length:
  "parseInlineBlocks_loop decodeDate res a = Inr spans \<Longrightarrow> length spans = length res + length a"
proof (induction a arbitrary: res)
  case Nil
  then show ?case by simp
next
  case (Cons v vs)
  from Cons.prems obtain a2 block where "v = JArray a2"
    and "parseInlineBlock decodeDate a2 = Inr block"
    and "parseInlineBlocks_loop decodeDate (res @ [block]) vs = Inr spans"
    by (auto split: json.splits sum.splits)
  with Cons.IH [of "res @ [block]"] show ?case
    by simp
qed

lemma parseInlineBlocks_keeps_every_entry:
  assumes "parseInlineBlocks decodeDate raw = Inr spans"
  shows "\<exists>a. raw = JArray a \<and> a \<noteq> [] \<and> length spans = length a"
proof (cases raw)
  case (JArray a)
  with assms have "a \<noteq> []" and "parseInlineBlocks_loop decodeDate [] a = Inr spans"
    by (auto simp: parseInlineBlocks_def split: if_splits)
  with JArray parseInlineBlocks_loop_length [of decodeDate "[]" a spans] show ?thesis
    by simp
qed (use assms in \<open>simp_all add: parseInlineBlocks_def\<close>)

lemma parseAttribute_panics:
  assumes "parseAttribute decodeDate b a = Inl (Panicked p)"
  shows "is_date_attribute (JArray a)"
proof -
  from assms obtain x xs where a: "a = x # xs"
    by (cases a) (simp_all add: parseAttribute_def)
  from assms a obtain s where x: "x = JString s"
    by (cases x) (simp_all add: parseAttribute_def)
  from assms a x obtain v where xs: "xs = [v]"
    by (cases xs; cases "tl xs") (auto simp: parseAttribute_def split: if_splits)
  from assms a x xs have "s = ''d''"
    by (auto simp: parseAttribute_def split: if_splits json.splits)
  with a x xs show ?thesis
    by (simp add: is_date_attribute_def)
qed

lemma parseAttributes_panics:
  "parseAttributes decodeDate b attrs = Inl (Panicked p) \<Longrightarrow> list_ex is_date_attribute attrs"
proof (induction attrs arbitrary: b)
  case Nil
  then show ?case by simp
next
  case (Cons rawAttr rest)
  from Cons.prems obtain attrList where raw: "rawAttr = JArray attrList"
    by (cases rawAttr) simp_all
  show ?case
  proof (cases "parseAttribute decodeDate b attrList")
    case (Inl err)
    with Cons.prems raw have "parseAttribute decodeDate b attrList = Inl (Panicked p)"
      by simp
    then have "is_date_attribute (JArray attrList)"
      by (rule parseAttribute_panics)
    with raw show ?thesis
      by simp
  next
    case (Inr b')
    with Cons.prems raw have "parseAttributes decodeDate b' rest = Inl (Panicked p)"
      by simp
    then have "list_ex is_date_attribute rest"
      by (rule Cons.IH)
    then show ?thesis
      by simp
  qed
qed

lemma parseInlineBlock_panics:
  assumes "parseInlineBlock decodeDate a = Inl (Panicked p)"
  shows "\<exists>t attrs. a = [t, JArray attrs] \<and> list_ex is_date_attribute attrs"
proof -
  from assms obtain t rest where a: "a = t # rest"
    by (cases a) (simp_all add: parseInlineBlock_def)
  from assms a obtain u where rest: "rest = [u]"
    by (cases rest; cases "tl rest")
       (auto simp: parseInlineBlock_def split: if_splits json.splits)
  from assms a rest obtain s where t: "t = JString s"
    by (cases t) (simp_all add: parseInlineBlock_def)
  from assms a rest t obtain attrs where u: "u = JArray attrs"
    by (cases u) (simp_all add: parseInlineBlock_def)
  from assms a rest t u have "list_ex is_date_attribute attrs"
    by (auto simp: parseInlineBlock_def dest: parseAttributes_panics)
  with a rest u show ?thesis
    by simp
qed

lemma parseInlineBlocks_loop_panics:
  "parseInlineBlocks_loop decodeDate res a = Inl (Panicked p) \<Longrightarrow> carries_date (JArray a)"
proof (induction a arbitrary: res)
  case Nil
  then show ?case by simp
next
  case (Cons v vs)
  from Cons.prems obtain a2 where v: "v = JArray a2"
    by (cases v) simp_all
  show ?case
  proof (cases "parseInlineBlock decodeDate a2")
    case (Inl err)
    with Cons.prems v have "parseInlineBlock decodeDate a2 = Inl (Panicked p)"
      by simp
    then obtain t attrs where "a2 = [t, JArray attrs]" and "list_ex is_date_attribute attrs"
      using parseInlineBlock_panics by blast
    with v show ?thesis
      by (simp add: carries_date_def)
  next
    case (Inr block)
    with Cons.prems v have "parseInlineBlocks_loop decodeDate (res @ [block]) vs = Inl (Panicked p)"
      by simp
    then have "carries_date (JArray vs)"
      by (rule Cons.IH)
    then show ?thesis
      by (simp add: carries_date_def)
  qed
qed

lemma parseInlineBlocks_panics_only_on_date:
  assumes "parseInlineBlocks decodeDate raw = Inl (Panicked p)"
  shows "carries_date raw"
proof (cases raw)
  case (JArray a)
  with assms have "parseInlineBlocks_loop decodeDate [] a = Inl (Panicked p)"
    by (auto simp: parseInlineBlocks_def split: if_splits)
  with JArray show ?thesis
    by (simp add: parseInlineBlocks_loop_panics)
qed (use assms in \<open>simp_all add: parseInlineBlocks_def\<close>)

text \<open>
  Claim C9.  Parsing \<open>[["hello"], ["world", [["b"]]]]\<close> succeeds with exactly two spans,
  in order: the text "hello" with no attribute at all (it is plain), and the text
  "world" whose flags are the bold flag alone (the bit 1, which is none of the code,
  italic and strikethrough bits) and whose link, user and date are unset.
\<close>

theorem parseInlineBlocks_hello_world:
  "parseInlineBlocks decodeDate
     (JArray [JArray [JString ''hello''],
              JArray [JString ''world'', JArray [JArray [JString ''b'']]]])
   = Inr [\<lparr>Text = ''hello'', AttrFlags = 0, Link = [], UserID = [], Date = None\<rparr>,
          \<lparr>Text = ''world'', AttrFlags = AttrBold, Link = [], UserID = [], Date = None\<rparr>]
   \<and> IsPlain \<lparr>Text = ''hello'', AttrFlags = 0, Link = [], UserID = [], Date = None\<rparr>
   \<and> AttrBold = 1 \<and> AttrBold AND (AttrCode OR AttrItalic OR AttrStrikeThrought) = 0"
  by (simp add: parseInlineBlocks_def parseInlineBlock_def parseAttribute_def IsPlain_def
      AttrBold_def AttrCode_def AttrItalic_def AttrStrikeThrought_def)

text \<open>
  Claim C3.  The claim is that a value of unexpected type at any position makes the
  parse fail with a returned decode error that describes the offending value.  The
  code does so for the link and user attributes, whose value it tests with the
  two-valued type assertion, but it reads the value of a date attribute with the
  one-valued assertion \<open>a[1].(map[string]interface{})\<close>: on
  \<open>[["x", [["d", "2019-01-01"]]]]\<close> the parse panics and returns nothing.  On the
  sibling path, \<open>[["x", [["a", true]]]]\<close> does return an error, whose message is
  formatted from the zero string and not from the offending value.  A date attribute
  is the only place where the parse can panic (\<open>parseInlineBlocks_panics_only_on_date\<close>).
\<close>

theorem parseInlineBlocks_date_panics:
  "parseInlineBlocks decodeDate
     (JArray [JArray [JString ''x'', JArray [JArray [JString ''d'', JString ''2019-01-01'']]]])
   = Inl (Panicked InterfaceConversion)
   \<and> parseInlineBlocks decodeDate
     (JArray [JArray [JString ''x'', JArray [JArray [JString ''a'', JBool True]]]])
   = Inl (Returned (AttributeValueNotString []))"
  by (simp add: parseInlineBlocks_def parseInlineBlock_def parseAttribute_def)

text \<open>
  Claim C5.  The claim, which is also the comment on the struct, is that at most one of
  \<open>Link\<close>, \<open>UserID\<close> and \<open>Date\<close> is set on a parsed span.  \<open>parseAttributes\<close> applies
  every attribute entry in turn and none of them clears what an earlier one stored:
  \<open>[["x", [["a", "http://x"], ["u", "someone"]]]]\<close> parses to one span with both the
  link and the user set.
\<close>

theorem parseInlineBlocks_link_and_user:
  "parseInlineBlocks decodeDate
     (JArray [JArray [JString ''x'',
        JArray [JArray [JString ''a'', JString ''http://x''],
                JArray [JString ''u'', JString ''someone'']]]])
   = Inr [\<lparr>Text = ''x'', AttrFlags = 0, Link = ''http://x'', UserID = ''someone'', Date = None\<rparr>]
   \<and> \<not> exclusive_slot
         \<lparr>Text = ''x'', AttrFlags = 0, Link = ''http://x'', UserID = ''someone'', Date = None\<rparr>"
  by (simp add: parseInlineBlocks_def parseInlineBlock_def parseAttribute_def exclusive_slot_def)

section \<open>Properties of the client\<close>


lemma logged_call:
  "post payload pattern w = (answer, w') \<Longrightarrow>
   logged post payload pattern (w, journal) = (answer, (w', journal @ [(payload, pattern, answer)]))"
  by (simp add: logged_def)

lemma GetBlock_loop_transport_error:
  "post (LoadPageChunk lp) ''loadPageChunk'' w = ((b, Some err), w') \<Longrightarrow>
   GetBlock_loop post unmarshal lp results w = Some (Inl err, w')"
  by (subst GetBlock_loop.simps) simp

lemma GetBlock_loop_decode_error:
  "post (LoadPageChunk lp) ''loadPageChunk'' w = ((b, None), w') \<Longrightarrow> unmarshal b = Inl err \<Longrightarrow>
   GetBlock_loop post unmarshal lp results w =
     Some (Inl (Wrap err ''unmarshaling loadPageChunkResponse''), w')"
  by (subst GetBlock_loop.simps) simp




lemma strings_Split_nonempty: "strings_Split s sep \<noteq> []"
  by (induction s) (auto split: list.splits)

lemma strings_Split_Join: "strings_Join (strings_Split s sep) [sep] = s"
proof (induction s)
  case Nil
  then show ?case by simp
next
  case (Cons c s)
  obtain x xs where split: "strings_Split s sep = x # xs"
    using strings_Split_nonempty [of s sep] by (cases "strings_Split s sep") auto
  with Cons show ?case
    by (cases xs) auto
qed

lemma strings_Split_parts: "part \<in> set (strings_Split s sep) \<Longrightarrow> sep \<notin> set part"
  by (induction s arbitrary: part) (auto split: list.splits if_splits)

lemma strings_Split_length: "length (strings_Split s sep) = Suc (count_list s sep)"
  by (induction s) (auto split: list.splits simp: strings_Split_nonempty)

text \<open>
  Claim C7.  For every block id, path and value, \<open>UpdateBlock\<close> hands the transport
  exactly one request: the transaction whose only operation has the block id, the
  table "block", the path split at each dot, the command "set" and the arguments
  \<open>[[value]]\<close>, posted to "submitTransaction".  Nothing is read before it and nothing
  is validated: whatever the block, path and value are, the journal of the transport
  grows by that one request, and the error returned is the transport's.  Splitting at
  each dot means: joining the parts with dots gives the path back, no part contains a
  dot, and there is one part more than there are dots.
\<close>

theorem UpdateBlock_single_set:
  fixes post :: "('p, 'w) transport"
  shows "let req = SubmitTransaction
                     \<lparr>Operations =
                        [\<lparr>ID = blockID, Table = ''block'', Path = strings_Split path CHR ''.'',
                          Command = ''set'', Args = [[value]]\<rparr>]\<rparr>;
             answer = fst (post req ''submitTransaction'' w);
             w' = snd (post req ''submitTransaction'' w)
         in UpdateBlock (logged post) blockID path value (w, journal)
              = (snd answer, (w', journal @ [(req, ''submitTransaction'', answer)]))
            \<and> strings_Join (strings_Split path CHR ''.'') ''.'' = path
            \<and> (\<forall>part \<in> set (strings_Split path CHR ''.''). CHR ''.'' \<notin> set part)
            \<and> length (strings_Split path CHR ''.'') = Suc (count_list path CHR ''.'')"
proof -
  let ?req = "SubmitTransaction
                \<lparr>Operations =
                   [\<lparr>ID = blockID, Table = ''block'', Path = strings_Split path CHR ''.'',
                     Command = ''set'', Args = [[value]]\<rparr>]\<rparr> :: 'p payload"
  obtain b err w' where answer: "post ?req ''submitTransaction'' w = ((b, err), w')"
    by (metis surj_pair)
  have "UpdateBlock (logged post) blockID path value (w, journal)
          = (err, (w', journal @ [(?req, ''submitTransaction'', (b, err))]))"
    by (cases err) (simp_all add: UpdateBlock_def logged_def answer)
  moreover have "\<forall>part \<in> set (strings_Split path CHR ''.''). CHR ''.'' \<notin> set part"
    using strings_Split_parts by blast
  ultimately show ?thesis
    using strings_Split_Join [of path "CHR ''.''"] strings_Split_length [of path "CHR ''.''"]
    by (simp add: answer Let_def)
qed

theorem UpdateBlock_single_set_witness:
  "UpdateBlock (logged stub_post) ''b1'' ''properties.title'' ''hello'' ([''{}''], [])
     = (None,
        ([], [(SubmitTransaction
                 \<lparr>Operations =
                    [\<lparr>ID = ''b1'', Table = ''block'', Path = [''properties'', ''title''],
                      Command = ''set'', Args = [[''hello'']]\<rparr>]\<rparr>,
               ''submitTransaction'', (''{}'', None))]))"
  using UpdateBlock_single_set [where post = stub_post and blockID = "''b1''"
      and path = "''properties.title''" and w = "[''{}'']" and journal = "[]", of "''hello''"]
  by (simp add: Let_def stub_post_def)

lemma mergeRecordMaps_returns:
  obtains rm where "mergeRecordMaps responses = Inr (rm, None)"
  using mergeRecordMaps_overlay [of responses] by blast

lemma parseBlockFromRecordMaps_nil_on_error:
  assumes run: "parseBlockFromRecordMaps resolve blockID responses = Some (Inr (b, Some e))"
  shows "b = None"
proof -
  obtain rm where rm: "mergeRecordMaps responses = Inr (rm, None)"
    by (rule mergeRecordMaps_returns)
  show ?thesis
  proof (cases "index_ok (Blocks rm) blockID")
    case None
    with run rm show ?thesis
      by (simp add: parseBlockFromRecordMaps_def)
  next
    case (Some ptr)
    show ?thesis
    proof (cases ptr)
      case None
      with run rm Some show ?thesis
        by (simp add: parseBlockFromRecordMaps_def)
    next
      case root: (Some blockBlock)
      show ?thesis
      proof (cases "collect_values (Blocks rm)")
        case (Inl p)
        with run rm Some root show ?thesis
          by (simp add: parseBlockFromRecordMaps_def)
      next
        case (Inr blocks)
        show ?thesis
        proof (cases "resolve (Value blockBlock) blocks")
          case None
          with run rm Some root Inr show ?thesis
            by (simp add: parseBlockFromRecordMaps_def)
        next
          case answered: (Some out)
          show ?thesis
          proof (cases out)
            case (Inl p)
            with run rm Some root Inr answered show ?thesis
              by (simp add: parseBlockFromRecordMaps_def)
          next
            case returned: (Inr pair)
            obtain block err where pair: "pair = (block, err)"
              by (cases pair)
            with run rm Some root Inr answered returned show ?thesis
              by (cases err) (simp_all add: parseBlockFromRecordMaps_def)
          qed
        qed
      qed
    qed
  qed
qed

lemma GetBlock_nil_on_error:
  assumes run: "GetBlock post unmarshal resolve blockID w = Some (Inr (b, Some e), w')"
  shows "b = None"
proof (cases "GetBlock_loop post unmarshal (first_request blockID) [] w")
  case None
  with run show ?thesis
    by (simp add: GetBlock_def)
next
  case (Some pages)
  obtain res w'' where pages: "pages = (res, w'')"
    by (cases pages)
  show ?thesis
  proof (cases res)
    case (Inl err)
    with run Some pages show ?thesis
      by (simp add: GetBlock_def)
  next
    case (Inr results)
    with run Some pages
    have "parseBlockFromRecordMaps resolve blockID results = Some (Inr (b, Some e))"
      by (simp add: GetBlock_def split: option.splits)
    then show ?thesis
      by (rule parseBlockFromRecordMaps_nil_on_error)
  qed
qed

text \<open>
  Claim C10.  Whenever \<open>GetBlock\<close> returns \<open>(b, err)\<close>, \<open>GetPage\<close> returns the non-nil
  page \<open>&Page{Block: b}\<close> with the same \<open>err\<close>, and \<open>b\<close> is nil when \<open>err\<close> is not: so
  every page \<open>GetPage\<close> returns is non-nil, and on failure it wraps a nil block.
\<close>

theorem GetPage_never_nil:
  fixes post :: "('p, 'w) transport"
    and unmarshal ::
      "string \<Rightarrow> error + ('p, ('blk BlockWithRole option, 's, 'u, 'c, 'v) RecordMap) loadPageChunkResponse"
    and resolve :: "'blk resolver"
  shows "(\<forall>b err w'. GetBlock post unmarshal resolve pageId w = Some (Inr (b, err), w') \<longrightarrow>
            GetPage post unmarshal resolve pageId w = Some (Inr (Some \<lparr>Block = b\<rparr>, err), w')
            \<and> (err \<noteq> None \<longrightarrow> b = None))
       \<and> (\<forall>page err w'. GetPage post unmarshal resolve pageId w = Some (Inr (page, err), w') \<longrightarrow>
            page \<noteq> None \<and> (err \<noteq> None \<longrightarrow> page = Some \<lparr>Block = None\<rparr>)
            \<and> (\<exists>b. page = Some \<lparr>Block = b\<rparr>
                   \<and> GetBlock post unmarshal resolve pageId w = Some (Inr (b, err), w')))"
proof (intro conjI allI impI)
  fix b err w'
  assume run: "GetBlock post unmarshal resolve pageId w = Some (Inr (b, err), w')"
  then show "GetPage post unmarshal resolve pageId w = Some (Inr (Some \<lparr>Block = b\<rparr>, err), w')"
    by (simp add: GetPage_def)
  assume "err \<noteq> None"
  then obtain e where "err = Some e"
    by blast
  with run show "b = None"
    using GetBlock_nil_on_error [of post unmarshal resolve pageId w b e w'] by simp
next
  fix page err w'
  assume run: "GetPage post unmarshal resolve pageId w = Some (Inr (page, err), w')"
  have "\<exists>b. page = Some \<lparr>Block = b\<rparr>
            \<and> GetBlock post unmarshal resolve pageId w = Some (Inr (b, err), w')"
  proof (cases "GetBlock post unmarshal resolve pageId w")
    case None
    with run show ?thesis
      by (simp add: GetPage_def)
  next
    case (Some out)
    obtain res w'' where out: "out = (res, w'')"
      by (cases out)
    show ?thesis
    proof (cases res)
      case (Inl p)
      with run Some out show ?thesis
        by (simp add: GetPage_def)
    next
      case (Inr pair)
      obtain b' err' where "pair = (b', err')"
        by (cases pair)
      with run Some out Inr show ?thesis
        by (simp add: GetPage_def)
    qed
  qed
  then obtain b where page: "page = Some \<lparr>Block = b\<rparr>"
    and block: "GetBlock post unmarshal resolve pageId w = Some (Inr (b, err), w')"
    by blast
  from page show "page \<noteq> None"
    by simp
  from page block
  show "\<exists>b. page = Some \<lparr>Block = b\<rparr>
            \<and> GetBlock post unmarshal resolve pageId w = Some (Inr (b, err), w')"
    by blast
  assume "err \<noteq> None"
  then obtain e where "err = Some e"
    by blast
  with block have "b = None"
    using GetBlock_nil_on_error [of post unmarshal resolve pageId w b e w'] by simp
  with page show "page = Some \<lparr>Block = None\<rparr>"
    by simp
qed

theorem GetPage_never_nil_witness:
  "GetBlock stub_post stub_unmarshal stub_resolve ''a'' []
     = Some (Inr (None, Some (Foreign ''connection refused'')), [])
   \<and> GetPage stub_post stub_unmarshal stub_resolve ''a'' []
     = Some (Inr (Some \<lparr>Block = None\<rparr>, Some (Foreign ''connection refused'')), [])"
proof -
  have "GetBlock_loop stub_post stub_unmarshal (first_request ''a'') [] []
          = Some (Inl (Foreign ''connection refused''), [])"
    by (rule GetBlock_loop_transport_error) (simp add: stub_post_def)
  then have run: "GetBlock stub_post stub_unmarshal stub_resolve ''a'' []
               = Some (Inr (None, Some (Foreign ''connection refused'')), [])"
    by (simp add: GetBlock_def)
  note GetPage_never_nil [of stub_post stub_unmarshal stub_resolve "''a''" "[]",
      THEN conjunct1, rule_format, OF run, THEN conjunct1]
  with run show ?thesis
    by (rule conjI)
qed










text \<open>
  Nothing bounds the number of pages: against a server that never returns an empty
  cursor stack the loop does not return.
\<close>

lemma GetBlock_loop_endless:
  fixes post :: "('p, 'w) transport"
    and unmarshal :: "string \<Rightarrow> error + ('p, 'm) loadPageChunkResponse"
  assumes more: "\<And>lp w. \<exists>b w' r. post (LoadPageChunk lp) ''loadPageChunk'' w = ((b, None), w')
                      \<and> unmarshal b = Inr r \<and> Stack (loadPageChunkResponse.Cursor r) \<noteq> []"
  shows "GetBlock_loop post unmarshal lp results w = None"
proof (rule ccontr)
  assume "GetBlock_loop post unmarshal lp results w \<noteq> None"
  then obtain y where run: "GetBlock_loop post unmarshal lp results w = Some y"
    by blast
  have "post = post \<and> unmarshal = unmarshal \<longrightarrow> False"
  proof (rule GetBlock_loop.raw_induct
      [where P = "\<lambda>post' unmarshal' lp results w y. post' = post \<and> unmarshal' = unmarshal \<longrightarrow> False",
        OF _ run])
    fix loop :: "('p, 'w) transport \<Rightarrow> (string \<Rightarrow> error + ('p, 'm) loadPageChunkResponse)
                   \<Rightarrow> 'p loadPageChunkRequest \<Rightarrow> 'm list \<Rightarrow> 'w \<Rightarrow> ((error + 'm list) \<times> 'w) option"
      and post' unmarshal' lp results w y
    assume IH: "\<And>post' unmarshal' lp results w y.
        loop post' unmarshal' lp results w = Some y \<Longrightarrow> post' = post \<and> unmarshal' = unmarshal \<longrightarrow> False"
      and body: "(case post' (LoadPageChunk lp) ''loadPageChunk'' w of
          ((b, None), w') \<Rightarrow>
            (case unmarshal' b of
               Inl err \<Rightarrow> Some (Inl (Wrap err ''unmarshaling loadPageChunkResponse''), w')
             | Inr r \<Rightarrow>
                 if length (Stack (loadPageChunkResponse.Cursor r)) = 0
                 then Some (Inr (results @ [RecordMap r]), w')
                 else loop post' unmarshal' (lp\<lparr>Cursor := loadPageChunkResponse.Cursor r\<rparr>)
                        (results @ [RecordMap r]) w')
        | ((b, Some err), w') \<Rightarrow> Some (Inl err, w')) = Some y"
    show "post' = post \<and> unmarshal' = unmarshal \<longrightarrow> False"
    proof
      assume same: "post' = post \<and> unmarshal' = unmarshal"
      from more [of lp w] obtain b w' r where
        "post (LoadPageChunk lp) ''loadPageChunk'' w = ((b, None), w')"
        "unmarshal b = Inr r" "Stack (loadPageChunkResponse.Cursor r) \<noteq> []"
        by blast
      with body same
      have "loop post unmarshal (lp\<lparr>Cursor := loadPageChunkResponse.Cursor r\<rparr>)
              (results @ [RecordMap r]) w' = Some y"
        by simp
      from IH [OF this] show False
        by simp
    qed
  qed
  then show False
    by simp
qed

end
